theory Spec2Isabelle
  imports Complex_Main
begin

section \<open>CloudMart tagging and cost governance: the data model\<close>

text \<open>
  The program keeps its data in pandas frames. A cell of a frame is missing, a string or
  a number. Two missing values are kept apart because \<open>astype(str)\<close> prints them
  differently: the float \<open>NaN\<close> that the CSV parser leaves for an empty field, and
  \<open>pd.NA\<close>, which \<open>load_data\<close> writes itself. \<open>pd.isna\<close> holds of both.
  Costs are floats in the program; here they are exact rationals, so rounding is not
  modelled.
\<close>

datatype cell = NaN | NA | Str string | Num rat

definition isna :: "cell \<Rightarrow> bool" where
  "isna c = (c = NaN \<or> c = NA)"

text \<open>
  A row maps a column label to its cell; a label the frame does not have maps to
  \<open>None\<close>. \<open>get\<close> is \<open>row.get(f)\<close>: Python's \<open>None\<close> for a label that is not
  there, which \<open>pd.isna\<close> takes for missing.
\<close>

type_synonym row = "string \<Rightarrow> cell option"

type_synonym table = "row list"

definition get :: "row \<Rightarrow> string \<Rightarrow> cell" where
  "get r f = (case r f of None \<Rightarrow> NA | Some v \<Rightarrow> v)"

text \<open>
  Elementwise \<open>==\<close> of a column with a scalar: a missing value on either side compares
  unequal, also to another missing value.
\<close>

definition cell_eq :: "cell \<Rightarrow> cell \<Rightarrow> bool" where
  "cell_eq a b = (\<not> isna a \<and> \<not> isna b \<and> a = b)"

text \<open>\<open>Series.sum()\<close> of a numeric column skips missing values.\<close>

fun num_of :: "cell \<Rightarrow> rat" where
  "num_of (Num x) = x"
| "num_of _ = 0"

definition cost_sum :: "table \<Rightarrow> rat" where
  "cost_sum df = sum_list (map (\<lambda>r. num_of (get r ''Cost'')) df)"

datatype error = ValueError | KeyError | ZeroDivisionError

section \<open>Task set 2: cost visibility\<close>

text \<open>Line 83: \<open>df["Tagged_filled"] = df["Tagged"].fillna("No")\<close>.\<close>

definition fillna :: "cell \<Rightarrow> cell \<Rightarrow> cell" where
  "fillna v c = (if isna c then v else c)"

definition tagged_filled :: "table \<Rightarrow> table" where
  "tagged_filled df =
     map (\<lambda>r. r(''Tagged_filled'' \<mapsto> fillna (Str ''No'') (get r ''Tagged''))) df"

text \<open>
  \<open>df.groupby(key, dropna=False)["Cost"].sum()\<close>: one entry per distinct value of the
  key column, missing values included, holding the summed cost of the rows with that
  value. pandas lists the groups in key order; the order is not modelled.
\<close>

definition groupby_cost :: "string \<Rightarrow> table \<Rightarrow> (cell \<times> rat) list" where
  "groupby_cost key df =
     map (\<lambda>k. (k, cost_sum (filter (\<lambda>r. get r key = k) df)))
       (remdups (map (\<lambda>r. get r key) df))"

text \<open>Python's \<open>/\<close> raises on a zero divisor.\<close>

definition py_div :: "rat \<Rightarrow> rat \<Rightarrow> error + rat" where
  "py_div a b = (if b = 0 then Inl ZeroDivisionError else Inr (a / b))"

record cost_split =
  total_cost :: rat
  tag_cost :: "(cell \<times> rat) list"
  untagged_cost :: rat
  untagged_cost_pct :: rat

text \<open>
  Lines 83 to 92. The conditional expression tests \<open>total_cost\<close> for truth, which for a
  number is being non-zero, and divides only then.
\<close>

definition total_and_split_cost :: "table \<Rightarrow> error + cost_split" where
  "total_and_split_cost df0 =
     (let df = tagged_filled df0;
          tc = groupby_cost ''Tagged_filled'' df;
          total = cost_sum df;
          untagged = cost_sum (filter (\<lambda>r. cell_eq (get r ''Tagged_filled'') (Str ''No'')) df)
      in case (if total \<noteq> 0
               then (case py_div untagged total of Inl e \<Rightarrow> Inl e | Inr q \<Rightarrow> Inr (q * 100))
               else Inr 0) of
           Inl e \<Rightarrow> Inl e
         | Inr pct \<Rightarrow>
             Inr \<lparr>total_cost = total, tag_cost = tc, untagged_cost = untagged,
                  untagged_cost_pct = pct\<rparr>)"

section \<open>Task set 4: filters\<close>

text \<open>
  Lines 150 to 156. A multiselect returns the list of chosen options; an empty list is
  false in Python and leaves the frame as it is.
\<close>

definition isin :: "string \<Rightarrow> cell list \<Rightarrow> row \<Rightarrow> bool" where
  "isin col sel r = (get r col \<in> set sel)"

definition filter_by :: "table \<Rightarrow> cell list \<Rightarrow> cell list \<Rightarrow> cell list \<Rightarrow> table" where
  "filter_by df sel_service sel_region sel_department =
     (let filtered = df;
          filtered = (if sel_service \<noteq> [] then filter (isin ''Service'' sel_service) filtered
                      else filtered);
          filtered = (if sel_region \<noteq> [] then filter (isin ''Region'' sel_region) filtered
                      else filtered);
          filtered = (if sel_department \<noteq> []
                      then filter (isin ''Department'' sel_department) filtered
                      else filtered)
      in filtered)"

text \<open>One filter on its own, for stating that the three can be taken one after another.\<close>

definition filter_one :: "string \<Rightarrow> cell list \<Rightarrow> table \<Rightarrow> table" where
  "filter_one col sel df = (if sel \<noteq> [] then filter (isin col sel) df else df)"

section \<open>Task set 3: tagging compliance\<close>

definition TAG_FIELDS :: "string list" where
  "TAG_FIELDS =
     [''Department'', ''Project'', ''Environment'', ''Owner'', ''CostCenter'', ''CreatedBy'']"

text \<open>Lines 117 and 118: the number of tag fields of a row that are not missing.\<close>

definition completeness_score :: "row \<Rightarrow> nat" where
  "completeness_score r = sum_list (map (\<lambda>f. if isna (get r f) then 0 else 1) TAG_FIELDS)"

text \<open>Line 120, and again line 197 on the remediated frame.\<close>

definition tag_completeness :: "table \<Rightarrow> table" where
  "tag_completeness df =
     map (\<lambda>r. r(''TagCompleteness'' \<mapsto> Num (of_nat (completeness_score r)))) df"

text \<open>
  Line 126: \<open>df.sort_values("TagCompleteness").head(n)\<close>, with \<open>n = 5\<close> in the program.
  The call names no \<open>kind\<close>, so pandas sorts with its default, \<open>quicksort\<close>. The sort
  routine belongs to the library, not to this program, and the order it gives to rows of
  equal key differs between inputs and builds of the library; it is a parameter here.
\<close>

type_synonym sorter = "(row \<Rightarrow> rat) \<Rightarrow> table \<Rightarrow> table"

definition lowest_completeness :: "sorter \<Rightarrow> table \<Rightarrow> nat \<Rightarrow> table" where
  "lowest_completeness sort_values df n =
     take n (sort_values (\<lambda>r. num_of (get r ''TagCompleteness'')) (tag_completeness df))"

section \<open>Task set 5: remediation\<close>

text \<open>
  A frame with its column labels, as the data editor returns it. Line 190 turns the
  edited frame into a dictionary from resource id to the row's other cells:
  \<open>set_index\<close> raises \<open>KeyError\<close> when there is no \<open>ResourceID\<close> column and takes that
  column out of the columns, and \<open>to_dict(orient="index")\<close> raises \<open>ValueError\<close> when two
  rows have the same index value. A dictionary is a list of pairs with distinct keys, in
  insertion order.
\<close>

record frame =
  columns :: "string list"
  rows :: table

type_synonym changes = "(string \<times> cell) list"

type_synonym edits = "(cell \<times> changes) list"

definition edited_map :: "frame \<Rightarrow> error + edits" where
  "edited_map editable_df =
     (if ''ResourceID'' \<notin> set (columns editable_df) then Inl KeyError
      else if \<not> distinct (map (\<lambda>r. get r ''ResourceID'') (rows editable_df)) then Inl ValueError
      else Inr (map (\<lambda>r. (get r ''ResourceID'',
                          map (\<lambda>col. (col, get r col))
                            (filter (\<lambda>col. col \<noteq> ''ResourceID'') (columns editable_df))))
                  (rows editable_df)))"

text \<open>
  What line 190 guarantees of its result: the resource ids are distinct, and so are the
  columns of each entry, none of which is \<open>ResourceID\<close>.
\<close>

definition is_edited_map :: "edits \<Rightarrow> bool" where
  "is_edited_map m =
     (distinct (map fst m) \<and>
      (\<forall>(rid, changes) \<in> set m. distinct (map fst changes) \<and> ''ResourceID'' \<notin> fst ` set changes))"

text \<open>
  Line 194: \<open>remediated.loc[remediated["ResourceID"] == rid, col] = val\<close> writes \<open>val\<close>
  into column \<open>col\<close> of every row the mask selects.
\<close>

definition loc_set :: "cell \<Rightarrow> string \<Rightarrow> cell \<Rightarrow> table \<Rightarrow> table" where
  "loc_set rid col val df =
     map (\<lambda>r. if cell_eq (get r ''ResourceID'') rid then r(col \<mapsto> val) else r) df"

text \<open>Lines 192 to 194: the two nested loops over the dictionary.\<close>

definition apply_edits :: "edits \<Rightarrow> table \<Rightarrow> table" where
  "apply_edits m df =
     fold (\<lambda>(rid, changes) df. fold (\<lambda>(col, val) df. loc_set rid col val df) changes df) m df"

text \<open>Line 198: the status of a row after the edits.\<close>

definition resolved_status :: "row \<Rightarrow> cell" where
  "resolved_status r =
     (if \<not> isna (get r ''Department'') \<and> \<not> isna (get r ''Owner'') then Str ''Yes''
      else (if \<not> isna (get r ''Tagged_filled'') then get r ''Tagged_filled'' else Str ''No''))"

definition recompute_tagged :: "table \<Rightarrow> table" where
  "recompute_tagged df = map (\<lambda>r. r(''Tagged_filled'' \<mapsto> resolved_status r)) df"

text \<open>Lines 188 to 198 as a function of the frame's value.\<close>

definition remediated :: "table \<Rightarrow> edits \<Rightarrow> table" where
  "remediated df m = recompute_tagged (tag_completeness (apply_edits m df))"

text \<open>
  Frames are mutable objects and a Python variable holds a reference to one. The store
  lists the frames that exist; an address is a position in it. \<open>df.copy()\<close> makes a new
  object, and every later statement of the block writes into that object.
\<close>

type_synonym store = "table list"

definition copy :: "nat \<Rightarrow> store \<Rightarrow> nat \<times> store" where
  "copy a s = (length s, s @ [s ! a])"

definition store_write :: "nat \<Rightarrow> (table \<Rightarrow> table) \<Rightarrow> store \<Rightarrow> store" where
  "store_write a f s = s[a := f (s ! a)]"

definition apply_remediation :: "nat \<Rightarrow> edits \<Rightarrow> store \<Rightarrow> nat \<times> store" where
  "apply_remediation df m s0 =
     (case copy df s0 of (rem, s1) \<Rightarrow>
        let s2 = fold (\<lambda>(rid, changes) s.
                         fold (\<lambda>(col, val) s. store_write rem (loc_set rid col val) s) changes s) m s1;
            s3 = store_write rem tag_completeness s2;
            s4 = store_write rem recompute_tagged s3
        in (rem, s4))"

text \<open>
  Lines 222 and 223. The left merge on \<open>ResourceID\<close> pairs every remediated row with
  every baseline row of the same key, in order; pandas matches a missing key with a
  missing key. A row without a partner keeps a missing \<open>before\<close>. \<open>!=\<close> is the negation
  of \<open>==\<close> cell by cell.
\<close>

record change =
  resource_id :: cell
  before :: cell
  after :: cell
  cost :: cell

definition join_eq :: "cell \<Rightarrow> cell \<Rightarrow> bool" where
  "join_eq a b = (a = b \<or> (isna a \<and> isna b))"

definition merge_left :: "table \<Rightarrow> table \<Rightarrow> change list" where
  "merge_left left right =
     concat (map (\<lambda>l.
       (case filter (\<lambda>r. join_eq (get l ''ResourceID'') (get r ''ResourceID'')) right of
          [] \<Rightarrow> [\<lparr>resource_id = get l ''ResourceID'', before = NaN,
                   after = get l ''Tagged_filled'', cost = get l ''Cost''\<rparr>]
        | ms \<Rightarrow> map (\<lambda>r. \<lparr>resource_id = get l ''ResourceID'', before = get r ''Tagged_filled'',
                          after = get l ''Tagged_filled'', cost = get l ''Cost''\<rparr>) ms)) left)"

definition changed :: "table \<Rightarrow> table \<Rightarrow> change list" where
  "changed df rem = filter (\<lambda>c. \<not> cell_eq (after c) (before c)) (merge_left rem df)"

section \<open>Loading and cleaning the data\<close>

text \<open>
  \<open>load_data\<close> from line 24 on, given the frame that \<open>pd.read_csv\<close> returned. Reading and
  parsing the file are the library's work and are not modelled, nor are frames in which
  two columns have the same label once the labels are trimmed (pandas then selects a
  sub-frame where the code expects a column). Two library functions are parameters:
  \<open>parse\<close> reads a string as a number for \<open>pd.to_numeric\<close>, and \<open>fmt\<close> prints a number
  for \<open>astype(str)\<close>.
\<close>

definition is_space :: "char \<Rightarrow> bool" where
  "is_space c = (of_char c \<in> {9, 10, 11, 12, 13, 28, 29, 30, 31, 32 :: nat})"

definition strip :: "string \<Rightarrow> string" where
  "strip s = rev (dropWhile is_space (rev (dropWhile is_space s)))"

text \<open>Line 24: the cells stay where they are under the trimmed labels.\<close>

definition strip_columns :: "frame \<Rightarrow> frame" where
  "strip_columns df =
     \<lparr>columns = map strip (columns df),
      rows = map (\<lambda>r c. case find (\<lambda>c0. strip c0 = c) (columns df) of
                           None \<Rightarrow> None | Some c0 \<Rightarrow> r c0) (rows df)\<rparr>"

text \<open>\<open>df[c] = values\<close>: a new label is appended, an old one keeps its place.\<close>

definition assign_column :: "string \<Rightarrow> (row \<Rightarrow> cell) \<Rightarrow> frame \<Rightarrow> frame" where
  "assign_column c f df =
     \<lparr>columns = (if c \<in> set (columns df) then columns df else columns df @ [c]),
      rows = map (\<lambda>r. r(c \<mapsto> f r)) (rows df)\<rparr>"

text \<open>\<open>pd.to_numeric(..., errors="coerce")\<close>: what is not a number becomes \<open>NaN\<close>.\<close>

fun to_numeric :: "(string \<Rightarrow> rat option) \<Rightarrow> cell \<Rightarrow> cell" where
  "to_numeric parse (Num x) = Num x"
| "to_numeric parse (Str s) = (case parse s of Some x \<Rightarrow> Num x | None \<Rightarrow> NaN)"
| "to_numeric parse NaN = NaN"
| "to_numeric parse NA = NaN"

definition cost_of :: "(string \<Rightarrow> rat option) \<Rightarrow> cell \<Rightarrow> cell" where
  "cost_of parse c = fillna (Num 0) (to_numeric parse c)"

text \<open>
  A parsed column has dtype \<open>object\<close> when it holds a string. \<open>astype(str)\<close> prints a
  missing value too: \<open>NaN\<close> as \<open>nan\<close>, \<open>pd.NA\<close> as \<open><NA>\<close>; line 37 undoes the
  first.
\<close>

definition is_object :: "string \<Rightarrow> frame \<Rightarrow> bool" where
  "is_object c df = list_ex (\<lambda>r. case r c of Some (Str s) \<Rightarrow> True | _ \<Rightarrow> False) (rows df)"

fun astype_str :: "(rat \<Rightarrow> string) \<Rightarrow> cell \<Rightarrow> string" where
  "astype_str fmt (Str s) = s"
| "astype_str fmt NaN = ''nan''"
| "astype_str fmt NA = ''<NA>''"
| "astype_str fmt (Num x) = fmt x"

definition normalize_text :: "(rat \<Rightarrow> string) \<Rightarrow> cell \<Rightarrow> cell" where
  "normalize_text fmt c =
     (let s = strip (astype_str fmt c)
      in if s = '''' \<or> s = ''nan'' \<or> s = ''None'' then NA else Str s)"

definition REQUIRED :: "string list" where
  "REQUIRED =
     [''AccountID'', ''Service'', ''Region'', ''Environment'', ''Tagged'', ''ResourceID'',
      ''Project'', ''Department'', ''Owner'', ''CostCenter'', ''CreatedBy'']"

definition standardize_cost :: "(string \<Rightarrow> rat option) \<Rightarrow> frame \<Rightarrow> error + frame" where
  "standardize_cost parse df =
     (if ''MonthlyCostUSD'' \<in> set (columns df)
      then Inr (assign_column ''Cost'' (\<lambda>r. cost_of parse (get r ''MonthlyCostUSD'')) df)
      else if ''Cost'' \<in> set (columns df)
      then Inr (assign_column ''Cost'' (\<lambda>r. cost_of parse (get r ''Cost'')) df)
      else Inl ValueError)"

definition normalize_columns :: "(rat \<Rightarrow> string) \<Rightarrow> frame \<Rightarrow> frame" where
  "normalize_columns fmt df =
     fold (\<lambda>c d. assign_column c (\<lambda>r. normalize_text fmt (get r c)) d)
       (filter (\<lambda>c. is_object c df) (columns df)) df"

definition ensure_columns :: "frame \<Rightarrow> frame" where
  "ensure_columns df =
     fold (\<lambda>req d. if req \<notin> set (columns d) then assign_column req (\<lambda>r. NA) d else d)
       REQUIRED df"

definition load_data :: "(string \<Rightarrow> rat option) \<Rightarrow> (rat \<Rightarrow> string) \<Rightarrow> frame \<Rightarrow> error + frame" where
  "load_data parse fmt parsed =
     (case standardize_cost parse (strip_columns parsed) of
        Inl e \<Rightarrow> Inl e
      | Inr df \<Rightarrow>
          Inr (assign_column ''AccountID'' (\<lambda>r. Str (astype_str fmt (get r ''AccountID'')))
                (ensure_columns (normalize_columns fmt df))))"

text \<open>The twelve columns the rest of the program reads.\<close>

definition EXPECTED :: "string list" where
  "EXPECTED = ''Cost'' # REQUIRED"

text \<open>
  What \<open>load_data\<close> returns when it succeeds, with \<open>src\<close> the column the cost is
  read from.
\<close>

definition loaded :: "(string \<Rightarrow> rat option) \<Rightarrow> (rat \<Rightarrow> string) \<Rightarrow> string \<Rightarrow> frame \<Rightarrow> frame" where
  "loaded parse fmt src parsed =
     assign_column ''AccountID'' (\<lambda>r. Str (astype_str fmt (get r ''AccountID'')))
       (ensure_columns (normalize_columns fmt
          (assign_column ''Cost'' (\<lambda>r. cost_of parse (get r src)) (strip_columns parsed))))"

section \<open>Example data\<close>

text \<open>The two resources of the specification's scenario.\<close>

definition scenario :: table where
  "scenario =
     [Map.empty(''ResourceID'' \<mapsto> Str ''A'', ''Cost'' \<mapsto> Num 100, ''Department'' \<mapsto> NA,
        ''Owner'' \<mapsto> NA, ''Tagged'' \<mapsto> Str ''No''),
      Map.empty(''ResourceID'' \<mapsto> Str ''B'', ''Cost'' \<mapsto> Num 50,
        ''Department'' \<mapsto> Str ''Eng'', ''Owner'' \<mapsto> Str ''Alice'', ''Tagged'' \<mapsto> Str ''Yes'')]"

definition ec2_row :: row where
  "ec2_row = Map.empty(''ResourceID'' \<mapsto> Str ''i-1'', ''Service'' \<mapsto> Str ''EC2'',
     ''Region'' \<mapsto> Str ''us-east-1'', ''Department'' \<mapsto> Str ''Eng'')"

definition s3_row :: row where
  "s3_row = Map.empty(''ResourceID'' \<mapsto> Str ''b-1'', ''Service'' \<mapsto> Str ''S3'',
     ''Region'' \<mapsto> Str ''us-east-1'', ''Department'' \<mapsto> NA)"

text \<open>The scenario's edit, and an edit of a resource id that two rows share.\<close>

definition scenario_edits :: edits where
  "scenario_edits = [(Str ''A'', [(''Department'', Str ''Eng''), (''Owner'', Str ''Bob'')])]"

definition shared_id :: table where
  "shared_id =
     [Map.empty(''ResourceID'' \<mapsto> Str ''R1'', ''Cost'' \<mapsto> Num 100, ''Department'' \<mapsto> NA,
        ''Owner'' \<mapsto> NA, ''Tagged'' \<mapsto> Str ''No'', ''Tagged_filled'' \<mapsto> Str ''No''),
      Map.empty(''ResourceID'' \<mapsto> Str ''R1'', ''Cost'' \<mapsto> Num 50,
        ''Department'' \<mapsto> Str ''Eng'', ''Owner'' \<mapsto> Str ''Alice'', ''Tagged'' \<mapsto> Str ''Yes'',
        ''Tagged_filled'' \<mapsto> Str ''Yes'')]"

definition shared_edits :: edits where
  "shared_edits = [(Str ''R1'', [(''Department'', Str ''Ops'')])]"

text \<open>
  Stand-ins for the two library functions on the examples, and four parsed files: one
  with the canonical cost column only, one with no cost column, one with both cost
  columns (the second under a label with a leading blank), and one with the fallback
  column only.
\<close>

definition demo_parse :: "string \<Rightarrow> rat option" where
  "demo_parse s = (if s = ''12.5'' then Some (25 / 2) else None)"

definition demo_fmt :: "rat \<Rightarrow> string" where
  "demo_fmt x = (if x = 10 then ''10'' else ''0'')"

definition bill :: frame where
  "bill = \<lparr>columns = [''MonthlyCostUSD''], rows = [Map.empty(''MonthlyCostUSD'' \<mapsto> Num 10)]\<rparr>"

definition no_cost :: frame where
  "no_cost = \<lparr>columns = [''Service''], rows = [Map.empty(''Service'' \<mapsto> Str ''EC2'')]\<rparr>"

definition both_costs :: frame where
  "both_costs =
     \<lparr>columns = [''ResourceID'', ''MonthlyCostUSD'', '' Cost''],
      rows = [Map.empty(''ResourceID'' \<mapsto> Str ''A'', ''MonthlyCostUSD'' \<mapsto> Str ''12.5'',
                '' Cost'' \<mapsto> Str ''99''),
              Map.empty(''ResourceID'' \<mapsto> Str ''B'', ''MonthlyCostUSD'' \<mapsto> Str ''n/a'',
                '' Cost'' \<mapsto> Str ''12.5''),
              Map.empty(''ResourceID'' \<mapsto> Str ''C'', ''MonthlyCostUSD'' \<mapsto> NaN,
                '' Cost'' \<mapsto> Str ''12.5'')]\<rparr>"

definition cost_only :: frame where
  "cost_only =
     \<lparr>columns = [''Cost''],
      rows = [Map.empty(''Cost'' \<mapsto> Str ''12.5''), Map.empty(''Cost'' \<mapsto> Num 3)]\<rparr>"

section \<open>The edit loops, row by row\<close>

text \<open>
  What the loops of lines 192 to 194 do to a single row, used in the proofs below: the
  cells of one entry written in turn, and the entries applied in turn to the row when
  its resource id is the entry's key.
\<close>

definition write_changes :: "changes \<Rightarrow> row \<Rightarrow> row" where
  "write_changes ch r = fold (\<lambda>(c, v) r. r(c \<mapsto> v)) ch r"

definition edit_row :: "edits \<Rightarrow> row \<Rightarrow> row" where
  "edit_row m r =
     fold (\<lambda>(rid, ch) r. if cell_eq (get r ''ResourceID'') rid then write_changes ch r else r) m r"

section \<open>Properties of the cost split\<close>

lemma sum_list_pick0:
  "a \<notin> set ks \<Longrightarrow> sum_list (map (\<lambda>k. if a = k then (c::rat) else 0) ks) = 0"
  by (induction ks) auto

lemma sum_list_pick:
  "distinct ks \<Longrightarrow> a \<in> set ks \<Longrightarrow> sum_list (map (\<lambda>k. if a = k then (c::rat) else 0) ks) = c"
  by (induction ks) (auto simp: sum_list_pick0)

text \<open>Summing group by group over a list of distinct keys that covers the rows.\<close>

lemma group_sums:
  "distinct ks \<Longrightarrow> f ` set xs \<subseteq> set ks \<Longrightarrow>
   sum_list (map (\<lambda>k. sum_list (map g (filter (\<lambda>r. f r = k) xs))) ks)
     = sum_list (map (g :: 'a \<Rightarrow> rat) xs)"
proof (induction xs)
  case Nil
  then show ?case by (simp add: sum_list_0)
next
  case (Cons x xs)
  have "sum_list (map (\<lambda>k. sum_list (map g (filter (\<lambda>r. f r = k) (x # xs)))) ks)
      = sum_list (map (\<lambda>k. (if f x = k then g x else 0)
                               + sum_list (map g (filter (\<lambda>r. f r = k) xs))) ks)"
    by (rule arg_cong[where f = sum_list], rule map_cong) auto
  also have "\<dots> = sum_list (map (\<lambda>k. if f x = k then g x else 0) ks)
                 + sum_list (map (\<lambda>k. sum_list (map g (filter (\<lambda>r. f r = k) xs))) ks)"
    by (simp add: sum_list_addf)
  also have "\<dots> = g x + sum_list (map g xs)"
    using Cons by (simp add: sum_list_pick)
  finally show ?case by simp
qed

lemma groupby_total: "sum_list (map snd (groupby_cost key df)) = cost_sum df"
  unfolding groupby_cost_def cost_sum_def
  by (simp add: comp_def group_sums)

lemma cost_sum_tagged_filled: "cost_sum (tagged_filled df) = cost_sum df"
  by (simp add: cost_sum_def tagged_filled_def comp_def get_def)

lemma untagged_rows:
  "filter (\<lambda>r. cell_eq (get r ''Tagged_filled'') (Str ''No'')) (tagged_filled df)
     = tagged_filled (filter (\<lambda>r. isna (get r ''Tagged'') \<or> get r ''Tagged'' = Str ''No'') df)"
  by (auto simp: tagged_filled_def filter_map comp_def cell_eq_def fillna_def get_def isna_def
        intro!: arg_cong[where f = "map _"] filter_cong)

text \<open>The block never takes the error branch; this is what it returns.\<close>

lemma total_and_split_cost_eq:
  "total_and_split_cost df =
     Inr \<lparr>total_cost = cost_sum df,
          tag_cost = groupby_cost ''Tagged_filled'' (tagged_filled df),
          untagged_cost =
            cost_sum (filter (\<lambda>r. isna (get r ''Tagged'') \<or> get r ''Tagged'' = Str ''No'') df),
          untagged_cost_pct =
            (if cost_sum df \<noteq> 0
             then cost_sum (filter (\<lambda>r. isna (get r ''Tagged'') \<or> get r ''Tagged'' = Str ''No'') df)
                    / cost_sum df * 100
             else 0)\<rparr>"
  by (simp add: total_and_split_cost_def Let_def py_div_def cost_sum_tagged_filled untagged_rows)

lemma cost_sum_scenario: "cost_sum scenario = 150"
  by (simp add: cost_sum_def scenario_def get_def)

text \<open>
  Claim C5. \<open>total_and_split_cost\<close> returns a result for every table and never the
  division error. The total it returns is the sum of the costs and the untagged cost is
  the cost of the rows whose \<open>Tagged\<close> is missing or \<open>No\<close>. When the total is 0, as on
  the empty table, the total returned is 0 and the untagged percentage is 0; when the
  total is positive the percentage is the untagged cost divided by the total, times 100.
\<close>

theorem total_and_split_cost_guard:
  "\<exists>s. total_and_split_cost df = Inr s
     \<and> total_cost s = cost_sum df
     \<and> untagged_cost s =
           cost_sum (filter (\<lambda>r. isna (get r ''Tagged'') \<or> get r ''Tagged'' = Str ''No'') df)
     \<and> (cost_sum df = 0 \<longrightarrow> total_cost s = 0 \<and> untagged_cost_pct s = 0)
     \<and> (0 < cost_sum df \<longrightarrow> untagged_cost_pct s = untagged_cost s / total_cost s * 100)"
  by (simp add: total_and_split_cost_eq)

text \<open>
  On the empty table the total and the percentage are 0; on the scenario the total is
  150, the untagged cost 100 and the percentage 200/3.
\<close>

theorem total_and_split_cost_guard_witness:
  "(\<exists>s. total_and_split_cost [] = Inr s \<and> total_cost s = 0 \<and> untagged_cost_pct s = 0)
   \<and> (\<exists>s. total_and_split_cost scenario = Inr s \<and> total_cost s = 150 \<and> untagged_cost s = 100
          \<and> untagged_cost_pct s = 200 / 3)"
proof
  show "\<exists>s. total_and_split_cost [] = Inr s \<and> total_cost s = 0 \<and> untagged_cost_pct s = 0"
    using total_and_split_cost_guard [of "[]"] by (auto simp: cost_sum_def)
  have u: "cost_sum (filter (\<lambda>r. isna (get r ''Tagged'') \<or> get r ''Tagged'' = Str ''No'') scenario)
             = 100"
    by (simp add: cost_sum_def scenario_def get_def isna_def)
  show "\<exists>s. total_and_split_cost scenario = Inr s \<and> total_cost s = 150 \<and> untagged_cost s = 100
          \<and> untagged_cost_pct s = 200 / 3"
    using total_and_split_cost_guard [of scenario] by (auto simp: cost_sum_scenario u)
qed

text \<open>
  Claim C7. For every table, the costs of the groups of the split by resolved status add
  up to the total cost, which is the sum of the costs of all rows: no row's cost is lost
  or counted twice.
\<close>

theorem cost_split_totals:
  "\<exists>s. total_and_split_cost df = Inr s \<and> total_cost s = cost_sum df
     \<and> sum_list (map snd (tag_cost s)) = total_cost s"
  by (simp add: total_and_split_cost_eq groupby_total cost_sum_tagged_filled)

text \<open>On the scenario the groups are 100 untagged and 50 tagged.\<close>

theorem cost_split_totals_witness:
  "\<exists>s. total_and_split_cost scenario = Inr s
     \<and> tag_cost s = [(Str ''No'', 100), (Str ''Yes'', 50)]
     \<and> sum_list (map snd (tag_cost s)) = 150"
  using cost_split_totals [of scenario]
  by (auto simp: cost_sum_scenario total_and_split_cost_eq groupby_cost_def tagged_filled_def
        scenario_def get_def fillna_def isna_def cost_sum_def)

section \<open>Properties of the filters\<close>

lemma filter_one_conj:
  "filter_one c s df = filter (\<lambda>r. s = [] \<or> isin c s r) df"
  by (simp add: filter_one_def)

lemma filter_by_filter:
  "filter_by df ss rs ds =
     filter (\<lambda>r. (ss = [] \<or> isin ''Service'' ss r) \<and> (rs = [] \<or> isin ''Region'' rs r)
                \<and> (ds = [] \<or> isin ''Department'' ds r)) df"
  by (auto simp: filter_by_def Let_def intro: filter_cong)

text \<open>
  Claim C8. \<open>filter_by\<close> keeps exactly the rows whose service, region and department
  are each a member of the matching selection, an empty selection admitting every row.
  The result is the same as applying the three single filters one after another, in each
  of the six orders, and with only \<open>EC2\<close> selected for the service it is the rows whose
  service is \<open>EC2\<close>.
\<close>

theorem filter_by_composition:
  "filter_by df ss rs ds =
     filter (\<lambda>r. (ss = [] \<or> get r ''Service'' \<in> set ss) \<and> (rs = [] \<or> get r ''Region'' \<in> set rs)
                \<and> (ds = [] \<or> get r ''Department'' \<in> set ds)) df
   \<and> filter_by df ss rs ds
       = filter_one ''Department'' ds (filter_one ''Region'' rs (filter_one ''Service'' ss df))
   \<and> filter_by df ss rs ds
       = filter_one ''Region'' rs (filter_one ''Department'' ds (filter_one ''Service'' ss df))
   \<and> filter_by df ss rs ds
       = filter_one ''Department'' ds (filter_one ''Service'' ss (filter_one ''Region'' rs df))
   \<and> filter_by df ss rs ds
       = filter_one ''Service'' ss (filter_one ''Department'' ds (filter_one ''Region'' rs df))
   \<and> filter_by df ss rs ds
       = filter_one ''Region'' rs (filter_one ''Service'' ss (filter_one ''Department'' ds df))
   \<and> filter_by df ss rs ds
       = filter_one ''Service'' ss (filter_one ''Region'' rs (filter_one ''Department'' ds df))
   \<and> filter_by df [Str ''EC2''] [] [] = filter (\<lambda>r. get r ''Service'' = Str ''EC2'') df"
  unfolding filter_by_filter filter_one_conj filter_filter
  by (auto simp: isin_def intro!: filter_cong)

text \<open>Of an EC2 and an S3 resource, the EC2 one passes the filters.\<close>

theorem filter_by_composition_witness:
  "filter_by [ec2_row, s3_row] [Str ''EC2''] [] [] = [ec2_row] \<and>
   filter_by [ec2_row, s3_row] [Str ''S3'', Str ''EC2''] [Str ''us-east-1''] [Str ''Eng'']
     = filter_one ''Service'' [Str ''S3'', Str ''EC2'']
         (filter_one ''Region'' [Str ''us-east-1'']
           (filter_one ''Department'' [Str ''Eng''] [ec2_row, s3_row])) \<and>
   filter_by [ec2_row, s3_row] [Str ''S3'', Str ''EC2''] [Str ''us-east-1''] [Str ''Eng'']
     = [ec2_row]"
proof -
  have "get ec2_row ''Service'' = Str ''EC2''" "get s3_row ''Service'' = Str ''S3''"
    "get ec2_row ''Region'' = Str ''us-east-1''" "get s3_row ''Region'' = Str ''us-east-1''"
    "get ec2_row ''Department'' = Str ''Eng''" "get s3_row ''Department'' = NA"
    by (simp_all add: get_def ec2_row_def s3_row_def)
  then show ?thesis
    using filter_by_composition [of "[ec2_row, s3_row]" "[Str ''EC2'']" "[]" "[]"]
      filter_by_composition [of "[ec2_row, s3_row]" "[Str ''S3'', Str ''EC2'']"
        "[Str ''us-east-1'']" "[Str ''Eng'']"]
    by (simp add: filter_one_def isin_def)
qed

section \<open>Properties of the remediation\<close>

lemma write_changes_Nil: "write_changes [] r = r"
  by (simp add: write_changes_def)

lemma write_changes_Cons: "write_changes ((c, v) # ch) r = write_changes ch (r(c \<mapsto> v))"
  by (simp add: write_changes_def)

lemma write_changes_other:
  "c \<notin> fst ` set ch \<Longrightarrow> get (write_changes ch r) c = get r c"
  unfolding write_changes_def
  by (induction ch arbitrary: r) (auto simp: get_def)

lemma write_changes_hit:
  "distinct (map fst ch) \<Longrightarrow> (c, v) \<in> set ch \<Longrightarrow> get (write_changes ch r) c = v"
proof (induction ch arbitrary: r)
  case Nil
  then show ?case by simp
next
  case (Cons a ch)
  obtain c0 v0 where a: "a = (c0, v0)" by (cases a)
  have step: "write_changes (a # ch) r = write_changes ch (r(c0 \<mapsto> v0))"
    by (simp add: write_changes_def a)
  show ?case
  proof (cases "(c, v) = a")
    case True
    then have "c \<notin> fst ` set ch" using Cons.prems(1) a by auto
    then have "get (write_changes ch (r(c0 \<mapsto> v0))) c = get (r(c0 \<mapsto> v0)) c"
      by (rule write_changes_other)
    moreover have "c = c0" "v = v0" using True a by auto
    ultimately show ?thesis by (simp add: step get_def)
  next
    case False
    then have "(c, v) \<in> set ch" using Cons.prems(2) by auto
    moreover have "distinct (map fst ch)" using Cons.prems(1) by simp
    ultimately have "get (write_changes ch (r(c0 \<mapsto> v0))) c = v" by (rule Cons.IH [rotated])
    then show ?thesis by (simp add: step)
  qed
qed

lemma loc_set_changes:
  "''ResourceID'' \<notin> fst ` set ch \<Longrightarrow>
   fold (\<lambda>(col, val) df. loc_set rid col val df) ch df
     = map (\<lambda>r. if cell_eq (get r ''ResourceID'') rid then write_changes ch r else r) df"
proof (induction ch arbitrary: df)
  case Nil
  then show ?case by (simp add: write_changes_Nil map_idI)
next
  case (Cons a ch)
  obtain c0 v0 where a: "a = (c0, v0)" by (cases a)
  have c0: "c0 \<noteq> ''ResourceID''" using Cons.prems a by auto
  have keep: "get (r(c0 \<mapsto> v0)) ''ResourceID'' = get r ''ResourceID''" for r :: row
    using c0 by (simp add: get_def)
  have "fold (\<lambda>(col, val) df. loc_set rid col val df) (a # ch) df
      = fold (\<lambda>(col, val) df. loc_set rid col val df) ch (loc_set rid c0 v0 df)"
    by (simp add: a)
  also have "\<dots> = map (\<lambda>r. if cell_eq (get r ''ResourceID'') rid then write_changes ch r else r)
                      (loc_set rid c0 v0 df)"
    using Cons by simp
  also have "\<dots> = map (\<lambda>r. if cell_eq (get r ''ResourceID'') rid then write_changes (a # ch) r else r) df"
    by (simp add: loc_set_def keep a write_changes_Cons)
  finally show ?case .
qed

lemma apply_edits_rows:
  "\<forall>(rid, ch) \<in> set m. ''ResourceID'' \<notin> fst ` set ch \<Longrightarrow> apply_edits m df = map (edit_row m) df"
proof (induction m arbitrary: df)
  case Nil
  then show ?case by (simp add: apply_edits_def edit_row_def)
next
  case (Cons a m)
  obtain rid ch where a: "a = (rid, ch)" by (cases a)
  have 1: "''ResourceID'' \<notin> fst ` set ch" using Cons.prems a by auto
  have 2: "\<forall>(rid, ch) \<in> set m. ''ResourceID'' \<notin> fst ` set ch" using Cons.prems by auto
  have "apply_edits (a # m) df = apply_edits m (fold (\<lambda>(col, val) df. loc_set rid col val df) ch df)"
    by (simp add: apply_edits_def a)
  also have "\<dots> = map (edit_row m)
       (map (\<lambda>r. if cell_eq (get r ''ResourceID'') rid then write_changes ch r else r) df)"
    using Cons.IH [OF 2] loc_set_changes [OF 1] by simp
  also have "\<dots> = map (edit_row (a # m)) df"
    by (simp add: edit_row_def a)
  finally show ?case .
qed

lemma length_loc_fold: "length (fold (\<lambda>(col, val) df. loc_set rid col val df) ch df) = length df"
  by (induction ch arbitrary: df) (auto simp: loc_set_def)

lemma length_apply_edits: "length (apply_edits m df) = length df"
  unfolding apply_edits_def
  by (induction m arbitrary: df) (auto simp: length_loc_fold)

lemma length_remediated: "length (remediated df m) = length df"
  by (simp add: remediated_def recompute_tagged_def tag_completeness_def length_apply_edits)

text \<open>A column that no edit writes keeps its cell.\<close>

lemma loc_fold_other:
  "c \<notin> fst ` set ch \<Longrightarrow> i < length df \<Longrightarrow>
   get (fold (\<lambda>(col, val) df. loc_set rid col val df) ch df ! i) c = get (df ! i) c"
proof (induction ch arbitrary: df)
  case Nil
  then show ?case by simp
next
  case (Cons a ch)
  obtain c0 v0 where a: "a = (c0, v0)" by (cases a)
  have "c \<noteq> c0" "c \<notin> fst ` set ch" using Cons.prems a by auto
  then show ?case using Cons.IH [of "loc_set rid c0 v0 df"] Cons.prems(2)
    by (simp add: a loc_set_def get_def)
qed

lemma apply_edits_other:
  "\<forall>(rid, ch) \<in> set m. c \<notin> fst ` set ch \<Longrightarrow> i < length df \<Longrightarrow>
   get (apply_edits m df ! i) c = get (df ! i) c"
proof (induction m arbitrary: df)
  case Nil
  then show ?case by (simp add: apply_edits_def)
next
  case (Cons a m)
  obtain rid ch where a: "a = (rid, ch)" by (cases a)
  have 1: "c \<notin> fst ` set ch" using Cons.prems a by auto
  have 2: "\<forall>(rid, ch) \<in> set m. c \<notin> fst ` set ch" using Cons.prems by auto
  have "apply_edits (a # m) df = apply_edits m (fold (\<lambda>(col, val) df. loc_set rid col val df) ch df)"
    by (simp add: apply_edits_def a)
  then show ?case
    using Cons.IH [OF 2, of "fold (\<lambda>(col, val) df. loc_set rid col val df) ch df"]
      loc_fold_other [OF 1 Cons.prems(2)] Cons.prems(2)
    by (simp add: length_loc_fold)
qed

lemma remediated_nth:
  "i < length df \<Longrightarrow>
   remediated df m ! i =
     (let e = (apply_edits m df ! i)(''TagCompleteness'' \<mapsto> Num (of_nat (completeness_score (apply_edits m df ! i))))
      in e(''Tagged_filled'' \<mapsto> resolved_status e))"
  by (simp add: remediated_def recompute_tagged_def tag_completeness_def length_apply_edits Let_def)

lemma resolved_status_tc:
  "resolved_status (e(''TagCompleteness'' \<mapsto> x)) = resolved_status e"
  by (simp add: resolved_status_def get_def)

lemma remediated_status:
  "i < length df \<Longrightarrow> get (remediated df m ! i) ''Tagged_filled'' = resolved_status (apply_edits m df ! i)"
  by (simp add: remediated_nth Let_def resolved_status_tc get_def)

lemma remediated_field:
  "i < length df \<Longrightarrow> c \<noteq> ''Tagged_filled'' \<Longrightarrow> c \<noteq> ''TagCompleteness'' \<Longrightarrow>
   get (remediated df m ! i) c = get (apply_edits m df ! i) c"
  by (simp add: remediated_nth Let_def get_def)

lemmas run_defs = remediated_def recompute_tagged_def tag_completeness_def apply_edits_def
  loc_set_def tagged_filled_def scenario_def scenario_edits_def resolved_status_def get_def
  isna_def cell_eq_def fillna_def



lemma edit_row_Cons:
  "edit_row ((rid, ch) # m) r
     = edit_row m (if cell_eq (get r ''ResourceID'') rid then write_changes ch r else r)"
  by (simp add: edit_row_def)

lemma edit_row_miss:
  "\<forall>(rid, ch) \<in> set m. \<not> cell_eq (get r ''ResourceID'') rid \<Longrightarrow> edit_row m r = r"
proof (induction m)
  case Nil
  then show ?case by (simp add: edit_row_def)
next
  case (Cons a m)
  obtain rid ch where a: "a = (rid, ch)" by (cases a)
  show ?case using Cons by (simp add: a edit_row_Cons)
qed

lemma edit_row_hit:
  assumes "distinct (map fst m)" "(rid, ch) \<in> set m" "cell_eq (get r ''ResourceID'') rid"
    and "''ResourceID'' \<notin> fst ` set ch"
  shows "edit_row m r = write_changes ch r"
  using assms(1,2)
proof (induction m)
  case Nil
  then show ?case by simp
next
  case (Cons a m)
  obtain rid0 ch0 where a: "a = (rid0, ch0)" by (cases a)
  have r: "get r ''ResourceID'' = rid" using assms(3) by (simp add: cell_eq_def)
  show ?case
  proof (cases "(rid, ch) = a")
    case True
    then have eq: "rid0 = rid" "ch0 = ch" using a by auto
    have "rid \<notin> fst ` set m" using Cons.prems(1) a eq by auto
    moreover have "get (write_changes ch r) ''ResourceID'' = rid"
      using write_changes_other [OF assms(4)] r by simp
    ultimately have "\<forall>(rid', ch') \<in> set m. \<not> cell_eq (get (write_changes ch r) ''ResourceID'') rid'"
      by (force simp: cell_eq_def)
    then have "edit_row m (write_changes ch r) = write_changes ch r" by (rule edit_row_miss)
    then show ?thesis using assms(3) by (simp add: a eq edit_row_Cons)
  next
    case False
    then have in_m: "(rid, ch) \<in> set m" using Cons.prems(2) by auto
    then have "rid \<in> fst ` set m" by force
    then have "rid0 \<noteq> rid" using Cons.prems(1) a by auto
    then have "\<not> cell_eq (get r ''ResourceID'') rid0" using r by (auto simp: cell_eq_def)
    moreover have "edit_row m r = write_changes ch r"
      using Cons.IH in_m Cons.prems(1) by simp
    ultimately show ?thesis by (simp add: a edit_row_Cons)
  qed
qed

lemma is_edited_map_no_rid:
  "is_edited_map m \<Longrightarrow> \<forall>(rid, ch) \<in> set m. ''ResourceID'' \<notin> fst ` set ch"
  by (auto simp: is_edited_map_def)

text \<open>
  Claim C2. For every resource id, column and value of the dictionary built at line 190,
  every record whose resource id equals that key holds the value in that column after
  the edit loops, however many records share the id; the resource id itself is left as
  it was. The same holds in the remediated table for every column but the two that are
  recomputed afterwards, \<open>Tagged_filled\<close> and \<open>TagCompleteness\<close>.
\<close>

theorem broadcast_edit:
  assumes "is_edited_map m" "(rid, ch) \<in> set m" "(col, val) \<in> set ch"
    and "i < length df" "cell_eq (get (df ! i) ''ResourceID'') rid"
  shows "get (apply_edits m df ! i) col = val
    \<and> get (apply_edits m df ! i) ''ResourceID'' = get (df ! i) ''ResourceID''
    \<and> (col \<noteq> ''Tagged_filled'' \<and> col \<noteq> ''TagCompleteness''
         \<longrightarrow> get (remediated df m ! i) col = val)
    \<and> get (remediated df m ! i) ''ResourceID'' = get (df ! i) ''ResourceID''"
proof -
  have no_rid: "\<forall>(rid, ch) \<in> set m. ''ResourceID'' \<notin> fst ` set ch"
    using assms(1) by (rule is_edited_map_no_rid)
  have ch: "distinct (map fst ch)" "''ResourceID'' \<notin> fst ` set ch"
    using assms(1,2) by (auto simp: is_edited_map_def)
  have "apply_edits m df ! i = edit_row m (df ! i)"
    using assms(4) by (simp add: apply_edits_rows [OF no_rid])
  also have "\<dots> = write_changes ch (df ! i)"
    using assms(1,2,5) ch(2) by (intro edit_row_hit) (auto simp: is_edited_map_def)
  finally have e: "apply_edits m df ! i = write_changes ch (df ! i)" .
  have 1: "get (apply_edits m df ! i) col = val"
    unfolding e using ch(1) assms(3) by (rule write_changes_hit)
  have 2: "get (apply_edits m df ! i) ''ResourceID'' = get (df ! i) ''ResourceID''"
    unfolding e using ch(2) by (rule write_changes_other)
  show ?thesis
    using 1 2 assms(4) by (simp add: remediated_field)
qed

text \<open>
  Two records share the id \<open>R1\<close>; an edit of the department of \<open>R1\<close> reaches both.
\<close>

theorem broadcast_edit_witness:
  "is_edited_map shared_edits
   \<and> get (apply_edits shared_edits shared_id ! 0) ''Department'' = Str ''Ops''
   \<and> get (apply_edits shared_edits shared_id ! 1) ''Department'' = Str ''Ops''
   \<and> get (remediated shared_id shared_edits ! 0) ''Department'' = Str ''Ops''
   \<and> get (remediated shared_id shared_edits ! 1) ''Department'' = Str ''Ops''"
proof -
  have m: "is_edited_map shared_edits"
    by (simp add: is_edited_map_def shared_edits_def)
  have e: "(Str ''R1'', [(''Department'', Str ''Ops'')]) \<in> set shared_edits"
    "(''Department'', Str ''Ops'') \<in> set [(''Department'', Str ''Ops'')]"
    by (simp_all add: shared_edits_def)
  have i: "0 < length shared_id" "1 < length shared_id"
    by (simp_all add: shared_id_def)
  have k: "cell_eq (get (shared_id ! 0) ''ResourceID'') (Str ''R1'')"
    "cell_eq (get (shared_id ! 1) ''ResourceID'') (Str ''R1'')"
    by (simp_all add: shared_id_def get_def cell_eq_def isna_def)
  show ?thesis
    using m broadcast_edit [OF m e i(1) k(1)] broadcast_edit [OF m e i(2) k(2)]
    by simp
qed

text \<open>
  The edit dictionary of line 190 meets \<open>is_edited_map\<close> when the edited frame's labels
  are distinct.
\<close>

lemma edited_map_ok:
  assumes "edited_map e = Inr m" "distinct (columns e)"
  shows "is_edited_map m"
proof -
  have d: "distinct (map (\<lambda>r. get r ''ResourceID'') (rows e))" and
    m: "m = map (\<lambda>r. (get r ''ResourceID'',
                          map (\<lambda>col. (col, get r col))
                            (filter (\<lambda>col. col \<noteq> ''ResourceID'') (columns e)))) (rows e)"
    using assms(1) by (auto simp: edited_map_def split: if_splits)
  have "map fst m = map (\<lambda>r. get r ''ResourceID'') (rows e)"
    by (simp add: m comp_def)
  then show ?thesis
    using d assms(2) by (auto simp: is_edited_map_def m comp_def distinct_map_filter)
qed


lemma store_fold_changes:
  "a < length s \<Longrightarrow>
   fold (\<lambda>(col, val) s. store_write a (loc_set rid col val) s) ch s
     = s[a := fold (\<lambda>(col, val) df. loc_set rid col val df) ch (s ! a)]"
proof (induction ch arbitrary: s)
  case Nil
  then show ?case by simp
next
  case (Cons x ch)
  obtain c v where x: "x = (c, v)" by (cases x)
  have "a < length (store_write a (loc_set rid c v) s)"
    using Cons.prems by (simp add: store_write_def)
  then show ?case
    using Cons.IH [of "store_write a (loc_set rid c v) s"] Cons.prems
    by (simp add: x store_write_def)
qed

lemma store_fold_edits:
  "a < length s \<Longrightarrow>
   fold (\<lambda>(rid, changes) s.
           fold (\<lambda>(col, val) s. store_write a (loc_set rid col val) s) changes s) m s
     = s[a := apply_edits m (s ! a)]"
proof (induction m arbitrary: s)
  case Nil
  then show ?case by (simp add: apply_edits_def)
next
  case (Cons x m)
  obtain rid ch where x: "x = (rid, ch)" by (cases x)
  let ?s1 = "s[a := fold (\<lambda>(col, val) df. loc_set rid col val df) ch (s ! a)]"
  have "a < length ?s1" using Cons.prems by simp
  then show ?case
    using Cons.IH [of ?s1] Cons.prems
    by (simp add: x store_fold_changes apply_edits_def)
qed

lemma apply_remediation_eq:
  "apply_remediation df m s = (length s, s @ [remediated (s ! df) m])"
proof -
  let ?s1 = "s @ [s ! df]"
  have "length s < length ?s1" by simp
  then have "fold (\<lambda>(rid, changes) s'.
           fold (\<lambda>(col, val) s'. store_write (length s) (loc_set rid col val) s') changes s') m ?s1
     = ?s1[length s := apply_edits m (?s1 ! length s)]"
    by (rule store_fold_edits)
  then have "apply_remediation df m s =
      (length s, store_write (length s) recompute_tagged
         (store_write (length s) tag_completeness (?s1[length s := apply_edits m (?s1 ! length s)])))"
    by (simp add: apply_remediation_def copy_def Let_def)
  then show ?thesis
    by (simp add: store_write_def remediated_def)
qed

text \<open>
  Claim C3. \<open>apply_remediation\<close>, run on any baseline and any edits, returns the address
  of a new frame, different from every address in use before, and leaves every frame
  that existed before as it was, the baseline among them; the new frame holds the
  remediated table.
\<close>

theorem remediation_non_mutation:
  assumes "df < length s" "apply_remediation df m s = (rem, s')"
  shows "rem = length s \<and> rem \<noteq> df \<and> length s' = Suc (length s)
    \<and> (\<forall>a < length s. s' ! a = s ! a)
    \<and> s' ! df = s ! df
    \<and> s' ! rem = remediated (s ! df) m"
  using assms by (auto simp: apply_remediation_eq nth_append)

text \<open>
  With the scenario's baseline at address 0 the result is at address 1 and the baseline
  is unchanged.
\<close>

theorem remediation_non_mutation_witness:
  "fst (apply_remediation 0 scenario_edits [tagged_filled scenario]) = 1
   \<and> snd (apply_remediation 0 scenario_edits [tagged_filled scenario]) ! 0 = tagged_filled scenario
   \<and> snd (apply_remediation 0 scenario_edits [tagged_filled scenario]) ! 1
       = remediated (tagged_filled scenario) scenario_edits"
proof -
  have a: "(0::nat) < length [tagged_filled scenario]" by simp
  have p: "apply_remediation 0 scenario_edits [tagged_filled scenario]
     = (fst (apply_remediation 0 scenario_edits [tagged_filled scenario]),
        snd (apply_remediation 0 scenario_edits [tagged_filled scenario]))" by simp
  note r = remediation_non_mutation [OF a p]
  note f = r [THEN conjunct1]
  note baseline = r [THEN conjunct2, THEN conjunct2, THEN conjunct2, THEN conjunct2, THEN conjunct1]
  note result = r [THEN conjunct2, THEN conjunct2, THEN conjunct2, THEN conjunct2, THEN conjunct2]
  have "fst (apply_remediation 0 scenario_edits [tagged_filled scenario]) = 1"
    using f by simp
  then show ?thesis using baseline result by simp
qed

lemma yes_stays:
  assumes "\<forall>(rid, ch) \<in> set m. ''Tagged_filled'' \<notin> fst ` set ch" "i < length df"
    "get (df ! i) ''Tagged_filled'' = Str ''Yes''"
  shows "get (remediated df m ! i) ''Tagged_filled'' = Str ''Yes''"
  using assms by (simp add: remediated_status resolved_status_def apply_edits_other isna_def)

lemma merge_left_mem:
  assumes "c \<in> set (merge_left left right)"
  shows "\<exists>l \<in> set left.
           (c = \<lparr>resource_id = get l ''ResourceID'', before = NaN,
                 after = get l ''Tagged_filled'', cost = get l ''Cost''\<rparr>
            \<and> (\<forall>r \<in> set right. \<not> join_eq (get l ''ResourceID'') (get r ''ResourceID'')))
         \<or> (\<exists>r \<in> set right. join_eq (get l ''ResourceID'') (get r ''ResourceID'')
               \<and> c = \<lparr>resource_id = get l ''ResourceID'', before = get r ''Tagged_filled'',
                        after = get l ''Tagged_filled'', cost = get l ''Cost''\<rparr>)"
proof -
  from assms obtain l where l: "l \<in> set left" and
    c: "c \<in> set (case filter (\<lambda>r. join_eq (get l ''ResourceID'') (get r ''ResourceID'')) right of
          [] \<Rightarrow> [\<lparr>resource_id = get l ''ResourceID'', before = NaN,
                   after = get l ''Tagged_filled'', cost = get l ''Cost''\<rparr>]
        | ms \<Rightarrow> map (\<lambda>r. \<lparr>resource_id = get l ''ResourceID'', before = get r ''Tagged_filled'',
                          after = get l ''Tagged_filled'', cost = get l ''Cost''\<rparr>) ms)"
    by (auto simp: merge_left_def)
  show ?thesis
  proof (cases "filter (\<lambda>r. join_eq (get l ''ResourceID'') (get r ''ResourceID'')) right")
    case Nil
    then have "\<forall>r \<in> set right. \<not> join_eq (get l ''ResourceID'') (get r ''ResourceID'')"
      by (simp add: filter_empty_conv)
    then show ?thesis using l c Nil by auto
  next
    case (Cons x xs)
    then have "c \<in> set (map (\<lambda>r. \<lparr>resource_id = get l ''ResourceID'', before = get r ''Tagged_filled'',
                          after = get l ''Tagged_filled'', cost = get l ''Cost''\<rparr>)
                 (filter (\<lambda>r. join_eq (get l ''ResourceID'') (get r ''ResourceID'')) right))"
      using c by simp
    then show ?thesis using l by auto
  qed
qed

text \<open>
  Claim C9, as amended. When no edit writes the status column, every record whose status
  is \<open>Yes\<close> in the baseline has status \<open>Yes\<close> in the remediated table. If moreover the
  edits are a dictionary as line 190 builds it, the baseline's resource ids are present
  and pairwise distinct, and its statuses are \<open>Yes\<close> or \<open>No\<close>, then every entry of
  \<open>changed\<close> goes from \<open>No\<close> to \<open>Yes\<close>.
\<close>

theorem never_untags:
  assumes "\<forall>(rid, ch) \<in> set m. ''Tagged_filled'' \<notin> fst ` set ch"
  shows "(\<forall>i < length df. get (df ! i) ''Tagged_filled'' = Str ''Yes''
            \<longrightarrow> get (remediated df m ! i) ''Tagged_filled'' = Str ''Yes'')
    \<and> (is_edited_map m
        \<and> distinct (map (\<lambda>r. get r ''ResourceID'') df)
        \<and> (\<forall>r \<in> set df. \<not> isna (get r ''ResourceID''))
        \<and> (\<forall>r \<in> set df. get r ''Tagged_filled'' = Str ''Yes'' \<or> get r ''Tagged_filled'' = Str ''No'')
        \<longrightarrow> (\<forall>c \<in> set (changed df (remediated df m)).
               before c = Str ''No'' \<and> after c = Str ''Yes''))"
proof (rule conjI)
  show "\<forall>i < length df. get (df ! i) ''Tagged_filled'' = Str ''Yes''
            \<longrightarrow> get (remediated df m ! i) ''Tagged_filled'' = Str ''Yes''"
    using assms by (simp add: yes_stays)
next
  show "is_edited_map m
        \<and> distinct (map (\<lambda>r. get r ''ResourceID'') df)
        \<and> (\<forall>r \<in> set df. \<not> isna (get r ''ResourceID''))
        \<and> (\<forall>r \<in> set df. get r ''Tagged_filled'' = Str ''Yes'' \<or> get r ''Tagged_filled'' = Str ''No'')
        \<longrightarrow> (\<forall>c \<in> set (changed df (remediated df m)).
               before c = Str ''No'' \<and> after c = Str ''Yes'')"
  proof (rule impI, rule ballI)
  fix c
  assume h: "is_edited_map m
        \<and> distinct (map (\<lambda>r. get r ''ResourceID'') df)
        \<and> (\<forall>r \<in> set df. \<not> isna (get r ''ResourceID''))
        \<and> (\<forall>r \<in> set df. get r ''Tagged_filled'' = Str ''Yes'' \<or> get r ''Tagged_filled'' = Str ''No'')"
    and c: "c \<in> set (changed df (remediated df m))"
  have no_rid: "\<forall>(rid, ch) \<in> set m. ''ResourceID'' \<notin> fst ` set ch"
    using h by (intro is_edited_map_no_rid) simp
  have inj: "inj_on (\<lambda>r. get r ''ResourceID'') (set df)"
    using h by (simp add: distinct_map)
  from c have cm: "c \<in> set (merge_left (remediated df m) df)"
    and ne: "\<not> cell_eq (after c) (before c)"
    by (auto simp: changed_def)
  from merge_left_mem [OF cm] obtain l where l: "l \<in> set (remediated df m)" and
    alt: "(c = \<lparr>resource_id = get l ''ResourceID'', before = NaN,
                 after = get l ''Tagged_filled'', cost = get l ''Cost''\<rparr>
            \<and> (\<forall>r \<in> set df. \<not> join_eq (get l ''ResourceID'') (get r ''ResourceID'')))
         \<or> (\<exists>r \<in> set df. join_eq (get l ''ResourceID'') (get r ''ResourceID'')
               \<and> c = \<lparr>resource_id = get l ''ResourceID'', before = get r ''Tagged_filled'',
                        after = get l ''Tagged_filled'', cost = get l ''Cost''\<rparr>)"
    by blast
  from l obtain i where i: "i < length df" and li: "l = remediated df m ! i"
    by (auto simp: in_set_conv_nth length_remediated)
  have rid: "get l ''ResourceID'' = get (df ! i) ''ResourceID''"
    using i by (simp add: li remediated_field apply_edits_other [OF no_rid])
  have dfi: "df ! i \<in> set df" using i by simp
  have "join_eq (get l ''ResourceID'') (get (df ! i) ''ResourceID'')"
    by (simp add: rid join_eq_def)
  with alt dfi obtain r where r: "r \<in> set df"
    and j: "join_eq (get l ''ResourceID'') (get r ''ResourceID'')"
    and ceq: "c = \<lparr>resource_id = get l ''ResourceID'', before = get r ''Tagged_filled'',
                        after = get l ''Tagged_filled'', cost = get l ''Cost''\<rparr>"
    by blast
  have "\<not> isna (get r ''ResourceID'')" using h r by blast
  then have "get r ''ResourceID'' = get (df ! i) ''ResourceID''"
    using j rid by (auto simp: join_eq_def)
  then have r_eq: "r = df ! i" using inj r dfi by (auto dest: inj_onD)
  have b: "before c = get (df ! i) ''Tagged_filled''" by (simp add: ceq r_eq)
  have a: "after c = resolved_status (apply_edits m df ! i)"
    using i by (simp add: ceq li remediated_status)
  have keep: "get (apply_edits m df ! i) ''Tagged_filled'' = get (df ! i) ''Tagged_filled''"
    using assms i by (simp add: apply_edits_other)
  have yn: "get (df ! i) ''Tagged_filled'' = Str ''Yes'' \<or> get (df ! i) ''Tagged_filled'' = Str ''No''"
    using h dfi by blast
  show "before c = Str ''No'' \<and> after c = Str ''Yes''"
    using ne yn unfolding a b
    by (auto simp: resolved_status_def keep cell_eq_def isna_def split: if_splits)
  qed
qed

text \<open>
  The scenario: record \<open>B\<close> stays \<open>Yes\<close>, and the one changed entry is \<open>A\<close>, from
  \<open>No\<close> to \<open>Yes\<close>, at cost 100.
\<close>

theorem never_untags_witness:
  "is_edited_map scenario_edits
   \<and> get (tagged_filled scenario ! 1) ''Tagged_filled'' = Str ''Yes''
   \<and> get (remediated (tagged_filled scenario) scenario_edits ! 1) ''Tagged_filled'' = Str ''Yes''
   \<and> changed (tagged_filled scenario) (remediated (tagged_filled scenario) scenario_edits)
       = [\<lparr>resource_id = Str ''A'', before = Str ''No'', after = Str ''Yes'', cost = Num 100\<rparr>]"
proof -
  have untouched: "\<forall>(rid, ch) \<in> set scenario_edits. ''Tagged_filled'' \<notin> fst ` set ch"
    by (simp add: scenario_edits_def)
  have m: "is_edited_map scenario_edits"
    by (simp add: is_edited_map_def scenario_edits_def)
  have ids: "distinct (map (\<lambda>r. get r ''ResourceID'') (tagged_filled scenario))"
    "\<forall>r \<in> set (tagged_filled scenario). \<not> isna (get r ''ResourceID'')"
    "\<forall>r \<in> set (tagged_filled scenario).
       get r ''Tagged_filled'' = Str ''Yes'' \<or> get r ''Tagged_filled'' = Str ''No''"
    by (simp_all add: tagged_filled_def scenario_def get_def isna_def fillna_def)
  have yes: "get (tagged_filled scenario ! 1) ''Tagged_filled'' = Str ''Yes''"
    by (simp add: run_defs)
  have len: "1 < length (tagged_filled scenario)"
    by (simp add: tagged_filled_def scenario_def)
  have ch: "changed (tagged_filled scenario) (remediated (tagged_filled scenario) scenario_edits)
       = [\<lparr>resource_id = Str ''A'', before = Str ''No'', after = Str ''Yes'', cost = Num 100\<rparr>]"
    by (simp add: changed_def merge_left_def join_eq_def run_defs)
  show ?thesis
    using never_untags [OF untouched, of "tagged_filled scenario"] m ids yes len ch
    by simp
qed

text \<open>
  Without distinct resource ids the claim fails as stated. Two records share \<open>R1\<close>, one
  untagged and one tagged, and nothing is edited: the merge pairs the untagged record
  with the tagged one's baseline status, so \<open>changed\<close> lists an entry from \<open>Yes\<close> to
  \<open>No\<close>.
\<close>

theorem never_untags_counterexample:
  "changed shared_id (remediated shared_id [])
     = [\<lparr>resource_id = Str ''R1'', before = Str ''Yes'', after = Str ''No'', cost = Num 100\<rparr>,
        \<lparr>resource_id = Str ''R1'', before = Str ''No'', after = Str ''Yes'', cost = Num 50\<rparr>]"
  by (simp add: changed_def merge_left_def remediated_def recompute_tagged_def tag_completeness_def
        apply_edits_def shared_id_def resolved_status_def get_def isna_def join_eq_def cell_eq_def)

section \<open>Properties of the loader\<close>

lemma columns_assign: "set (columns (assign_column c f df)) = insert c (set (columns df))"
  by (auto simp: assign_column_def)

lemma columns_assign_old: "c \<in> set (columns df) \<Longrightarrow> columns (assign_column c f df) = columns df"
  by (simp add: assign_column_def)

lemma rows_assign: "rows (assign_column c f df) = map (\<lambda>r. r(c \<mapsto> f r)) (rows df)"
  by (simp add: assign_column_def)

lemma cell_assign_other:
  "c \<noteq> c' \<Longrightarrow> map (\<lambda>r. r c) (rows (assign_column c' f df)) = map (\<lambda>r. r c) (rows df)"
  by (simp add: rows_assign comp_def)

lemma cell_assign_same:
  "map (\<lambda>r. r c) (rows (assign_column c f df)) = map (\<lambda>r. Some (f r)) (rows df)"
  by (simp add: rows_assign comp_def)

text \<open>Normalising the text columns changes no label and no other column.\<close>

lemma fold_assign_columns:
  "set L \<subseteq> set (columns df) \<Longrightarrow>
   columns (fold (\<lambda>c d. assign_column c (g c) d) L df) = columns df"
  by (induction L arbitrary: df) (auto simp: columns_assign_old)

lemma fold_assign_other:
  "c \<notin> set L \<Longrightarrow>
   map (\<lambda>r. r c) (rows (fold (\<lambda>c d. assign_column c (g c) d) L df)) = map (\<lambda>r. r c) (rows df)"
  by (induction L arbitrary: df) (auto simp: cell_assign_other)

lemma columns_normalize: "columns (normalize_columns fmt df) = columns df"
  unfolding normalize_columns_def by (rule fold_assign_columns) auto

lemma normalize_other:
  "\<not> is_object c df \<Longrightarrow>
   map (\<lambda>r. r c) (rows (normalize_columns fmt df)) = map (\<lambda>r. r c) (rows df)"
  unfolding normalize_columns_def by (rule fold_assign_other) simp

lemma length_fold_assign:
  "length (rows (fold (\<lambda>c d. assign_column c (g c) d) L df)) = length (rows df)"
  by (induction L arbitrary: df) (auto simp: rows_assign)

lemma length_normalize: "length (rows (normalize_columns fmt df)) = length (rows df)"
  unfolding normalize_columns_def by (rule length_fold_assign)

text \<open>Ensuring the key fields adds the missing ones, all \<open>pd.NA\<close>, and changes no other.\<close>

lemma ensure_fold_columns:
  "set (columns (fold (\<lambda>req d. if req \<notin> set (columns d) then assign_column req (\<lambda>r. NA) d else d) L df))
     = set (columns df) \<union> set L"
  by (induction L arbitrary: df) (auto simp: columns_assign)

lemma ensure_fold_cells:
  "map (\<lambda>r. r c) (rows (fold (\<lambda>req d. if req \<notin> set (columns d) then assign_column req (\<lambda>r. NA) d else d) L df))
     = (if c \<in> set L \<and> c \<notin> set (columns df) then map (\<lambda>r. Some NA) (rows df)
        else map (\<lambda>r. r c) (rows df))"
proof (induction L arbitrary: df)
  case Nil
  then show ?case by simp
next
  case (Cons req L)
  let ?step = "\<lambda>req d. if req \<notin> set (columns d) then assign_column req (\<lambda>r. NA) d else d"
  let ?d = "?step req df"
  have unfold: "fold ?step (req # L) df = fold ?step L ?d" by simp
  have IH: "map (\<lambda>r. r c) (rows (fold ?step L ?d))
     = (if c \<in> set L \<and> c \<notin> set (columns ?d) then map (\<lambda>r. Some NA) (rows ?d)
        else map (\<lambda>r. r c) (rows ?d))"
    by (rule Cons.IH)
  show ?case
  proof (cases "req \<notin> set (columns df)")
    case new: True
    then have d: "?d = assign_column req (\<lambda>r. NA) df" by simp
    show ?thesis
    proof (cases "c = req")
      case True
      have "c \<in> set (columns ?d)" unfolding d True by (simp add: columns_assign)
      then have "map (\<lambda>r. r c) (rows (fold ?step L ?d)) = map (\<lambda>r. r c) (rows ?d)"
        unfolding IH by simp
      also have "\<dots> = map (\<lambda>r. Some NA) (rows df)"
        unfolding d True by (rule cell_assign_same)
      finally show ?thesis unfolding unfold using new True by simp
    next
      case False
      have 1: "(c \<notin> set (columns ?d)) = (c \<notin> set (columns df))"
        unfolding d using False by (simp add: columns_assign)
      have 2: "map (\<lambda>r. r c) (rows ?d) = map (\<lambda>r. r c) (rows df)"
        unfolding d using False by (rule cell_assign_other)
      have 3: "map (\<lambda>r. Some NA :: cell option) (rows ?d) = map (\<lambda>r. Some NA) (rows df)"
        unfolding d by (simp add: rows_assign)
      show ?thesis unfolding unfold IH 1 2 3 using False by simp
    qed
  next
    case old: False
    have "map (\<lambda>r. r c) (rows (fold ?step (req # L) df)) = map (\<lambda>r. r c) (rows (fold ?step L ?d))"
      by simp
    also note IH
    also have "(if c \<in> set L \<and> c \<notin> set (columns ?d) then map (\<lambda>r. Some NA) (rows ?d)
        else map (\<lambda>r. r c) (rows ?d))
      = (if c \<in> set (req # L) \<and> c \<notin> set (columns df) then map (\<lambda>r. Some NA) (rows df)
        else map (\<lambda>r. r c) (rows df))"
      using old by auto
    finally show ?thesis .
  qed
qed

lemma columns_ensure: "set (columns (ensure_columns df)) = set (columns df) \<union> set REQUIRED"
  unfolding ensure_columns_def by (rule ensure_fold_columns)

lemma cells_ensure:
  "map (\<lambda>r. r c) (rows (ensure_columns df))
     = (if c \<in> set REQUIRED \<and> c \<notin> set (columns df) then map (\<lambda>r. Some NA) (rows df)
        else map (\<lambda>r. r c) (rows df))"
  unfolding ensure_columns_def by (rule ensure_fold_cells)

lemma length_ensure: "length (rows (ensure_columns df)) = length (rows df)"
proof -
  have "length (rows (fold (\<lambda>req d. if req \<notin> set (columns d)
            then assign_column req (\<lambda>r. NA) d else d) L df)) = length (rows df)" for L
    by (induction L arbitrary: df) (auto simp: rows_assign)
  then show ?thesis by (simp add: ensure_columns_def)
qed

text \<open>The cost column is numeric, so line 37 leaves it alone.\<close>

lemma cost_of_Num: "\<exists>x. cost_of parse c = Num x"
  by (cases c) (auto simp: cost_of_def fillna_def isna_def split: option.splits)

lemma cost_not_object: "\<not> is_object ''Cost'' (assign_column ''Cost'' (\<lambda>r. cost_of parse (h r)) df)"
proof -
  have "\<not> (case (r(''Cost'' \<mapsto> cost_of parse (h r))) ''Cost'' of
             Some (Str s) \<Rightarrow> True | _ \<Rightarrow> False)" for r :: row
  proof -
    obtain x where "cost_of parse (h r) = Num x" using cost_of_Num by blast
    then show ?thesis by simp
  qed
  then show ?thesis
    by (simp add: is_object_def rows_assign list_ex_iff)
qed

lemma columns_strip: "columns (strip_columns df) = map strip (columns df)"
  by (simp add: strip_columns_def)

lemma length_strip: "length (rows (strip_columns df)) = length (rows df)"
  by (simp add: strip_columns_def)

lemma REQUIRED_not_Cost: "''Cost'' \<notin> set REQUIRED"
  by (simp add: REQUIRED_def)

lemma load_data_cases:
  "load_data parse fmt parsed =
     (if ''MonthlyCostUSD'' \<in> set (map strip (columns parsed))
      then Inr (loaded parse fmt ''MonthlyCostUSD'' parsed)
      else if ''Cost'' \<in> set (map strip (columns parsed))
      then Inr (loaded parse fmt ''Cost'' parsed)
      else Inl ValueError)"
  by (simp add: load_data_def standardize_cost_def loaded_def columns_strip)

lemma columns_loaded:
  "set (columns (loaded parse fmt src parsed))
     = set (map strip (columns parsed)) \<union> set EXPECTED"
  by (auto simp: loaded_def columns_assign columns_ensure columns_normalize columns_strip
        EXPECTED_def REQUIRED_def)

lemma length_loaded: "length (rows (loaded parse fmt src parsed)) = length (rows parsed)"
  by (simp add: loaded_def rows_assign length_ensure length_normalize length_strip)

lemma get_cells:
  assumes "map (\<lambda>r. r c) xs = map (\<lambda>r. Some (f r)) ys"
  shows "map (\<lambda>r. get r c) xs = map f ys"
proof -
  have "map (\<lambda>r. get r c) xs
      = map (\<lambda>v. case v of None \<Rightarrow> NA | Some v \<Rightarrow> v) (map (\<lambda>r. r c) xs)"
    by (simp add: get_def comp_def)
  also have "\<dots> = map f ys" unfolding assms by (simp add: comp_def)
  finally show ?thesis .
qed

lemma cells_loaded_absent:
  assumes "c \<in> set REQUIRED" "c \<noteq> ''AccountID''" "c \<notin> set (map strip (columns parsed))"
  shows "map (\<lambda>r. get r c) (rows (loaded parse fmt src parsed)) = replicate (length (rows parsed)) NA"
proof -
  let ?d1 = "assign_column ''Cost'' (\<lambda>r. cost_of parse (get r src)) (strip_columns parsed)"
  let ?d2 = "normalize_columns fmt ?d1"
  have "c \<noteq> ''Cost''" using assms(1) REQUIRED_not_Cost by auto
  then have "c \<notin> set (columns ?d2)"
    using assms(3) by (simp add: columns_normalize columns_assign columns_strip)
  then have "map (\<lambda>r. r c) (rows (ensure_columns ?d2)) = map (\<lambda>r. Some NA) (rows ?d2)"
    using assms(1) by (simp add: cells_ensure)
  then have "map (\<lambda>r. r c) (rows (loaded parse fmt src parsed)) = map (\<lambda>r. Some NA) (rows ?d2)"
    using assms(2) by (simp add: loaded_def cell_assign_other)
  then have "map (\<lambda>r. get r c) (rows (loaded parse fmt src parsed))
      = map (\<lambda>r. NA) (rows ?d2)"
    by (rule get_cells)
  then show ?thesis
    by (simp add: map_replicate_const length_normalize rows_assign length_strip)
qed

lemma cells_loaded_cost:
  "map (\<lambda>r. get r ''Cost'') (rows (loaded parse fmt src parsed))
     = map (\<lambda>r. cost_of parse (get r src)) (rows (strip_columns parsed))"
proof -
  let ?d1 = "assign_column ''Cost'' (\<lambda>r. cost_of parse (get r src)) (strip_columns parsed)"
  let ?d2 = "normalize_columns fmt ?d1"
  have "''Cost'' \<in> set (columns ?d2)" by (simp add: columns_normalize columns_assign)
  then have "map (\<lambda>r. r ''Cost'') (rows (ensure_columns ?d2)) = map (\<lambda>r. r ''Cost'') (rows ?d2)"
    by (simp add: cells_ensure)
  also have "\<dots> = map (\<lambda>r. r ''Cost'') (rows ?d1)"
    by (rule normalize_other) (rule cost_not_object)
  also have "\<dots> = map (\<lambda>r. Some (cost_of parse (get r src))) (rows (strip_columns parsed))"
    by (rule cell_assign_same)
  finally have "map (\<lambda>r. r ''Cost'') (rows (loaded parse fmt src parsed))
      = map (\<lambda>r. Some (cost_of parse (get r src))) (rows (strip_columns parsed))"
    by (simp add: loaded_def cell_assign_other)
  then show ?thesis
    by (rule get_cells)
qed

text \<open>
  What holds of the loader on a parsed file whose labels are distinct once trimmed:
  \<open>load_data\<close> fails exactly when neither \<open>MonthlyCostUSD\<close> nor \<open>Cost\<close> is among the
  trimmed labels, and then with \<open>ValueError\<close>. When it succeeds, the twelve expected
  columns are all there, the table has as many rows as the file, and every expected
  column other than \<open>AccountID\<close> and \<open>Cost\<close> that the file lacks is missing in every
  row.
\<close>

lemma load_data_contract:
  assumes "distinct (map strip (columns parsed))"
  shows "((\<exists>e. load_data parse fmt parsed = Inl e)
            \<longleftrightarrow> ''MonthlyCostUSD'' \<notin> set (map strip (columns parsed))
                \<and> ''Cost'' \<notin> set (map strip (columns parsed)))
    \<and> (\<forall>e. load_data parse fmt parsed = Inl e \<longrightarrow> e = ValueError)
    \<and> (\<forall>df. load_data parse fmt parsed = Inr df \<longrightarrow>
          set EXPECTED \<subseteq> set (columns df)
          \<and> length (rows df) = length (rows parsed)
          \<and> (\<forall>c \<in> set REQUIRED. c \<noteq> ''AccountID'' \<and> c \<notin> set (map strip (columns parsed))
                \<longrightarrow> map (\<lambda>r. get r c) (rows df) = replicate (length (rows parsed)) NA))"
  by (auto simp: load_data_cases columns_loaded length_loaded cells_loaded_absent)

lemma strip_labels:
  "strip ''MonthlyCostUSD'' = ''MonthlyCostUSD''" "strip '' Cost'' = ''Cost''"
  "strip ''ResourceID'' = ''ResourceID''" "strip ''Service'' = ''Service''"
  by (simp_all add: strip_def is_space_def)

lemma cells_loaded_account:
  assumes "''AccountID'' \<notin> set (map strip (columns parsed))"
  shows "map (\<lambda>r. get r ''AccountID'') (rows (loaded parse fmt src parsed))
     = replicate (length (rows parsed)) (Str ''<NA>'')"
proof -
  let ?d1 = "assign_column ''Cost'' (\<lambda>r. cost_of parse (get r src)) (strip_columns parsed)"
  let ?d2 = "normalize_columns fmt ?d1"
  let ?d3 = "ensure_columns ?d2"
  have "''AccountID'' \<notin> set (columns ?d2)"
    using assms by (simp add: columns_normalize columns_assign columns_strip)
  then have "map (\<lambda>r. r ''AccountID'') (rows ?d3) = map (\<lambda>r. Some NA) (rows ?d2)"
    by (simp add: cells_ensure REQUIRED_def)
  then have "map (\<lambda>r. get r ''AccountID'') (rows ?d3) = map (\<lambda>r. NA) (rows ?d2)"
    by (rule get_cells)
  then have "map (\<lambda>r. Str (astype_str fmt (get r ''AccountID''))) (rows ?d3)
      = map (\<lambda>r. Str ''<NA>'') (rows ?d2)"
    by (simp add: list_eq_iff_nth_eq)
  moreover have "map (\<lambda>r. get r ''AccountID'') (rows (loaded parse fmt src parsed))
      = map (\<lambda>r. Str (astype_str fmt (get r ''AccountID''))) (rows ?d3)"
    by (simp add: loaded_def rows_assign get_def comp_def)
  ultimately show ?thesis
    by (simp add: map_replicate_const length_normalize rows_assign length_strip)
qed

text \<open>
  A file without a cost column is refused; a file with the canonical cost column only
  loads, with all twelve columns and a missing owner.
\<close>

lemma load_data_contract_example:
  "distinct (map strip (columns bill)) \<and> distinct (map strip (columns no_cost))
   \<and> load_data demo_parse demo_fmt no_cost = Inl ValueError
   \<and> (\<exists>df. load_data demo_parse demo_fmt bill = Inr df
          \<and> set EXPECTED \<subseteq> set (columns df)
          \<and> map (\<lambda>r. get r ''Owner'') (rows df) = [NA])"
proof -
  have l: "map strip (columns bill) = [''MonthlyCostUSD'']"
    and n: "map strip (columns no_cost) = [''Service'']"
    by (simp_all add: bill_def no_cost_def strip_labels)
  have d: "distinct (map strip (columns bill))" "distinct (map strip (columns no_cost))"
    by (simp_all add: l n)
  note fail = load_data_contract [OF d(2), of demo_parse demo_fmt]
  note ok = load_data_contract [OF d(1), of demo_parse demo_fmt]
  have "\<exists>e. load_data demo_parse demo_fmt no_cost = Inl e"
    using fail [THEN conjunct1] by (simp add: n)
  then have 1: "load_data demo_parse demo_fmt no_cost = Inl ValueError"
    using fail [THEN conjunct2, THEN conjunct1] by auto
  have "\<not> (\<exists>e. load_data demo_parse demo_fmt bill = Inl e)"
    using ok [THEN conjunct1] by (simp add: l)
  then obtain df where df: "load_data demo_parse demo_fmt bill = Inr df"
    by (cases "load_data demo_parse demo_fmt bill") auto
  have o: "''Owner'' \<in> set REQUIRED" by (simp add: REQUIRED_def)
  have "set EXPECTED \<subseteq> set (columns df)
      \<and> map (\<lambda>r. get r ''Owner'') (rows df) = replicate (length (rows bill)) NA"
    using ok [THEN conjunct2, THEN conjunct2, rule_format, OF df] o by (simp add: l)
  then show ?thesis using d 1 df by (simp add: bill_def)
qed

text \<open>
  Claim C6. The claim expects every expected column that the file lacks to be there
  after loading and missing in every row. For \<open>AccountID\<close> the code does not do so. On
  a file whose only column is \<open>MonthlyCostUSD\<close>, with one row, loading succeeds, line 42
  adds \<open>AccountID\<close> as \<open>pd.NA\<close>, and line 45 turns it into the string \<open><NA>\<close>,
  which \<open>pd.isna\<close> does not take for missing. Line 37 undoes the same printing of
  missing values for the text columns; nothing undoes it after line 45.
\<close>

theorem load_data_synthesized_account_id:
  "''AccountID'' \<in> set EXPECTED
   \<and> ''AccountID'' \<notin> set (map strip (columns bill))
   \<and> (\<exists>df. load_data demo_parse demo_fmt bill = Inr df
          \<and> map (\<lambda>r. get r ''AccountID'') (rows df) = [Str ''<NA>''])
   \<and> \<not> isna (Str ''<NA>'')"
proof -
  have l: "map strip (columns bill) = [''MonthlyCostUSD'']"
    by (simp add: bill_def strip_labels)
  have "load_data demo_parse demo_fmt bill = Inr (loaded demo_parse demo_fmt ''MonthlyCostUSD'' bill)"
    by (simp add: load_data_cases l)
  moreover have "map (\<lambda>r. get r ''AccountID'') (rows (loaded demo_parse demo_fmt ''MonthlyCostUSD'' bill))
      = [Str ''<NA>'']"
    using cells_loaded_account [of bill demo_parse demo_fmt "''MonthlyCostUSD''"]
    by (simp add: l) (simp add: bill_def)
  ultimately show ?thesis
    by (simp add: l EXPECTED_def REQUIRED_def isna_def)
qed

lemma cost_of_simps:
  "cost_of parse (Num x) = Num x" "cost_of parse NaN = Num 0" "cost_of parse NA = Num 0"
  "cost_of parse (Str s) = Num (case parse s of Some x \<Rightarrow> x | None \<Rightarrow> 0)"
  by (simp_all add: cost_of_def fillna_def isna_def split: option.splits)

lemma overwritten_cost:
  assumes "strip k = ''Cost''"
  shows "assign_column ''Cost'' (\<lambda>r. cost_of parse (get r ''MonthlyCostUSD''))
           (strip_columns (parsed\<lparr>rows := map (\<lambda>r. r(k := g r)) (rows parsed)\<rparr>))
       = assign_column ''Cost'' (\<lambda>r. cost_of parse (get r ''MonthlyCostUSD''))
           (strip_columns parsed)"
proof -
  have other: "(case find (\<lambda>c0. strip c0 = c) (columns parsed) of
                  None \<Rightarrow> None | Some c0 \<Rightarrow> (r(k := v)) c0)
             = (case find (\<lambda>c0. strip c0 = c) (columns parsed) of
                  None \<Rightarrow> None | Some c0 \<Rightarrow> r c0)"
    if "c \<noteq> ''Cost''" for c v and r :: row
  proof (cases "find (\<lambda>c0. strip c0 = c) (columns parsed)")
    case None
    then show ?thesis by simp
  next
    case (Some c0)
    then have "strip c0 = c" by (auto simp: find_Some_iff)
    then have "c0 \<noteq> k" using assms that by auto
    then show ?thesis using Some by simp
  qed
  have row: "(\<lambda>c. case find (\<lambda>c0. strip c0 = c) (columns parsed) of
                  None \<Rightarrow> None | Some c0 \<Rightarrow> (r(k := v)) c0)
                (''Cost'' \<mapsto> cost_of parse (get (\<lambda>c. case find (\<lambda>c0. strip c0 = c) (columns parsed) of
                  None \<Rightarrow> None | Some c0 \<Rightarrow> (r(k := v)) c0) ''MonthlyCostUSD''))
           = (\<lambda>c. case find (\<lambda>c0. strip c0 = c) (columns parsed) of
                  None \<Rightarrow> None | Some c0 \<Rightarrow> r c0)
                (''Cost'' \<mapsto> cost_of parse (get (\<lambda>c. case find (\<lambda>c0. strip c0 = c) (columns parsed) of
                  None \<Rightarrow> None | Some c0 \<Rightarrow> r c0) ''MonthlyCostUSD''))"
    for v and r :: row
  proof (rule ext)
    fix c
    show "((\<lambda>c. case find (\<lambda>c0. strip c0 = c) (columns parsed) of
                  None \<Rightarrow> None | Some c0 \<Rightarrow> (r(k := v)) c0)
                (''Cost'' \<mapsto> cost_of parse (get (\<lambda>c. case find (\<lambda>c0. strip c0 = c) (columns parsed) of
                  None \<Rightarrow> None | Some c0 \<Rightarrow> (r(k := v)) c0) ''MonthlyCostUSD''))) c
           = ((\<lambda>c. case find (\<lambda>c0. strip c0 = c) (columns parsed) of
                  None \<Rightarrow> None | Some c0 \<Rightarrow> r c0)
                (''Cost'' \<mapsto> cost_of parse (get (\<lambda>c. case find (\<lambda>c0. strip c0 = c) (columns parsed) of
                  None \<Rightarrow> None | Some c0 \<Rightarrow> r c0) ''MonthlyCostUSD''))) c"
      using other [of c r v] other [of "''MonthlyCostUSD''" r v]
      by (simp add: get_def)
  qed
  show ?thesis
    by (simp add: assign_column_def strip_columns_def comp_def row)
qed

lemma discards_cost:
  assumes "''MonthlyCostUSD'' \<in> set (map strip (columns parsed))" "strip k = ''Cost''"
  shows "load_data parse fmt (parsed\<lparr>rows := map (\<lambda>r. r(k := g r)) (rows parsed)\<rparr>)
       = load_data parse fmt parsed"
  using assms(1)
  by (simp add: load_data_cases loaded_def overwritten_cost [OF assms(2)])

text \<open>
  Claim C10. Given the parsed file, with labels that are distinct once trimmed. When
  \<open>MonthlyCostUSD\<close> is among the trimmed labels, loading succeeds and the cost of every
  row is the number read from that column, and the result is the same whatever the
  cells under a label that trims to \<open>Cost\<close> hold. When \<open>MonthlyCostUSD\<close> is not there
  and \<open>Cost\<close> is, the cost is the number read from \<open>Cost\<close>. The number read from a
  number is itself, from a string what the parser makes of it or 0 if it makes nothing,
  and from a missing value 0.
\<close>

theorem canonical_cost_precedence:
  assumes "distinct (map strip (columns parsed))"
  shows "(''MonthlyCostUSD'' \<in> set (map strip (columns parsed)) \<longrightarrow>
            (\<exists>df. load_data parse fmt parsed = Inr df
               \<and> map (\<lambda>r. get r ''Cost'') (rows df)
                   = map (\<lambda>r. cost_of parse (get r ''MonthlyCostUSD'')) (rows (strip_columns parsed)))
            \<and> (\<forall>k g. strip k = ''Cost'' \<longrightarrow>
                  load_data parse fmt (parsed\<lparr>rows := map (\<lambda>r. r(k := g r)) (rows parsed)\<rparr>)
                    = load_data parse fmt parsed))
    \<and> (''MonthlyCostUSD'' \<notin> set (map strip (columns parsed))
         \<and> ''Cost'' \<in> set (map strip (columns parsed)) \<longrightarrow>
            (\<exists>df. load_data parse fmt parsed = Inr df
               \<and> map (\<lambda>r. get r ''Cost'') (rows df)
                   = map (\<lambda>r. cost_of parse (get r ''Cost'')) (rows (strip_columns parsed))))
    \<and> (\<forall>x. cost_of parse (Num x) = Num x)
    \<and> (\<forall>s. cost_of parse (Str s) = Num (case parse s of Some x \<Rightarrow> x | None \<Rightarrow> 0))
    \<and> cost_of parse NaN = Num 0 \<and> cost_of parse NA = Num 0"
proof (intro conjI impI allI)
  assume m: "''MonthlyCostUSD'' \<in> set (map strip (columns parsed))"
  show "\<exists>df. load_data parse fmt parsed = Inr df
               \<and> map (\<lambda>r. get r ''Cost'') (rows df)
                   = map (\<lambda>r. cost_of parse (get r ''MonthlyCostUSD'')) (rows (strip_columns parsed))"
    using m by (simp add: load_data_cases cells_loaded_cost)
  fix k g assume "strip k = ''Cost''"
  then show "load_data parse fmt (parsed\<lparr>rows := map (\<lambda>r. r(k := g r)) (rows parsed)\<rparr>)
                    = load_data parse fmt parsed"
    using m by (simp add: discards_cost)
next
  assume "''MonthlyCostUSD'' \<notin> set (map strip (columns parsed))
         \<and> ''Cost'' \<in> set (map strip (columns parsed))"
  then show "\<exists>df. load_data parse fmt parsed = Inr df
               \<and> map (\<lambda>r. get r ''Cost'') (rows df)
                   = map (\<lambda>r. cost_of parse (get r ''Cost'')) (rows (strip_columns parsed))"
    by (simp add: load_data_cases cells_loaded_cost)
qed (simp_all add: cost_of_simps)

lemma strip_Cost: "strip ''Cost'' = ''Cost''"
  by (simp add: strip_def is_space_def)

text \<open>
  With both columns the costs come from \<open>MonthlyCostUSD\<close>: 12.5, and 0 for \<open>n/a\<close> and
  for the empty field, not the 99 and 12.5 of the other column. With \<open>Cost\<close> alone they
  come from \<open>Cost\<close>.
\<close>

theorem canonical_cost_precedence_witness:
  "(\<exists>df. load_data demo_parse demo_fmt both_costs = Inr df
       \<and> map (\<lambda>r. get r ''Cost'') (rows df) = [Num (25 / 2), Num 0, Num 0])
   \<and> (\<exists>df. load_data demo_parse demo_fmt cost_only = Inr df
       \<and> map (\<lambda>r. get r ''Cost'') (rows df) = [Num (25 / 2), Num 3])"
proof (rule conjI)
  have l: "map strip (columns both_costs) = [''ResourceID'', ''MonthlyCostUSD'', ''Cost'']"
    by (simp add: both_costs_def strip_labels)
  have d: "distinct (map strip (columns both_costs))" by (simp add: l)
  have m: "''MonthlyCostUSD'' \<in> set (map strip (columns both_costs))" by (simp add: l)
  have v: "map (\<lambda>r. cost_of demo_parse (get r ''MonthlyCostUSD'')) (rows (strip_columns both_costs))
      = [Num (25 / 2), Num 0, Num 0]"
    by (simp add: strip_columns_def both_costs_def strip_labels get_def cost_of_simps demo_parse_def)
  note t = canonical_cost_precedence [OF d, of demo_parse demo_fmt]
  from t [THEN conjunct1, rule_format, OF m, THEN conjunct1]
  show "\<exists>df. load_data demo_parse demo_fmt both_costs = Inr df
       \<and> map (\<lambda>r. get r ''Cost'') (rows df) = [Num (25 / 2), Num 0, Num 0]"
    unfolding v .
next
  have l: "map strip (columns cost_only) = [''Cost'']"
    by (simp add: cost_only_def strip_Cost)
  have d: "distinct (map strip (columns cost_only))" by (simp add: l)
  have m: "''MonthlyCostUSD'' \<notin> set (map strip (columns cost_only))
      \<and> ''Cost'' \<in> set (map strip (columns cost_only))" by (simp add: l)
  have v: "map (\<lambda>r. cost_of demo_parse (get r ''Cost'')) (rows (strip_columns cost_only))
      = [Num (25 / 2), Num 3]"
    by (simp add: strip_columns_def cost_only_def strip_Cost get_def cost_of_simps demo_parse_def)
  note t = canonical_cost_precedence [OF d, of demo_parse demo_fmt]
  from t [THEN conjunct2, THEN conjunct1, rule_format, OF m]
  show "\<exists>df. load_data demo_parse demo_fmt cost_only = Inr df
       \<and> map (\<lambda>r. get r ''Cost'') (rows df) = [Num (25 / 2), Num 3]"
    unfolding v .
qed

end
